theory Spec2Isabelle
  imports Complex_Main "HOL-Library.Log_Nat"
begin

section \<open>Outcomes of calls\<close>

text \<open>
  The domain layer of example_06 (domain/entities.py) consists of Python classes whose
  methods mutate the receiver and signal failure by raising. A method is modelled as a
  function from the object before the call to a pair: how the call ended, and the
  object after the call. An exception does not undo assignments that were executed
  before it was raised, so the object is part of the result in both cases.

  Every \<open>ValueError\<close> of the source carries a message; the messages are kept apart
  by a tag, so that one can tell which check fired.

  Quantities and identifiers are Python integers, which are unbounded. Prices are
  Python floats, that is IEEE 754 double-precision numbers; the next section models
  them with their rounding, their infinities and not-a-number.

  The timestamps \<open>created_at\<close> and \<open>updated_at\<close> hold wall-clock time; no method
  below reads them, and they are left out of the records.

  The application layer (application/services.py) is not part of the theory. Its
  methods are plain functions that call the repository methods, every one of which is
  declared \<open>async def\<close> (infrastructure/repositories.py), without \<open>await\<close>. Such a
  call evaluates to a coroutine object and the body of the repository method does not
  run; the first attribute access on that object raises \<open>AttributeError\<close>. No
  service therefore gets hold of a stored product or order, and none writes a row.
\<close>

datatype reason =
    Name_too_short
  | Price_not_positive
  | Quantity_negative
  | Price_change_over_50
  | Amount_not_positive
  | Insufficient_stock int
  | Out_of_stock string
  | Insufficient_for_order string int int
  | Order_empty
  | Only_pending_confirmable
  | Cannot_cancel string

datatype exn =
    ValueError reason
  | AttributeError
  | ZeroDivisionError
  | OverflowError

datatype 'a outcome = Returns 'a | Raises exn

section \<open>Python floats\<close>

text \<open>
  A double is a finite number with a sign and a magnitude, an infinity with a sign, or
  not-a-number. The magnitude is a rational number; \<open>Num True 0\<close> is the negative
  zero. The numbers a double can hold are those of \<open>is_double\<close> below; every
  operation returns one of them.

  Rounding is to the nearest double, a tie going to the even neighbour. For a positive
  rational \<open>x\<close>, \<open>binade x\<close> is the exponent \<open>e\<close> with \<open>2^e \<le> x < 2^(e+1)\<close>,
  and \<open>ulp x\<close> is the distance between neighbouring doubles around \<open>x\<close>: 52 binary
  places below the exponent, and never finer than \<open>2^-1074\<close>, the spacing of the
  subnormal numbers. A result whose rounded magnitude reaches \<open>2^1024\<close> is an
  infinity.
\<close>

datatype double = Num bool rat | Infinity bool | NaN

definition binade :: "rat \<Rightarrow> int" where
  "binade x =
     (case quotient_of x of
        (a, b) \<Rightarrow> let e = bitlen a - bitlen b in if 2 powi e \<le> x then e else e - 1)"

definition ulp :: "rat \<Rightarrow> rat" where
  "ulp x = 2 powi (max (binade x) (- 1022) - 52)"

definition round_half_even :: "rat \<Rightarrow> int" where
  "round_half_even q =
     (let n = \<lfloor>q\<rfloor>; r = q - of_int n
      in if r < 1 / 2 then n else if 1 / 2 < r then n + 1 else if even n then n else n + 1)"

definition round_magnitude :: "rat \<Rightarrow> rat" where
  "round_magnitude x = (if x = 0 then 0 else of_int (round_half_even (x / ulp x)) * ulp x)"

definition to_double :: "bool \<Rightarrow> rat \<Rightarrow> double" where
  "to_double s x =
     (let m = round_magnitude x in if 2 ^ 1024 \<le> m then Infinity s else Num s m)"

fun is_double :: "double \<Rightarrow> bool" where
  "is_double (Num s m) = (0 \<le> m \<and> m < 2 ^ 1024 \<and> round_magnitude m = m)"
| "is_double (Infinity s) = True"
| "is_double NaN = True"

definition signed :: "bool \<Rightarrow> rat \<Rightarrow> rat" where
  "signed s m = (if s then - m else m)"

fun float_neg :: "double \<Rightarrow> double" where
  "float_neg (Num s m) = Num (\<not> s) m"
| "float_neg (Infinity s) = Infinity (\<not> s)"
| "float_neg NaN = NaN"

fun float_abs :: "double \<Rightarrow> double" where
  "float_abs (Num s m) = Num False m"
| "float_abs (Infinity s) = Infinity False"
| "float_abs NaN = NaN"

text \<open>
  Addition. A sum that is exactly zero is the negative zero only when both operands
  are negative; infinities of opposite sign give not-a-number.
\<close>

fun float_add :: "double \<Rightarrow> double \<Rightarrow> double" where
  "float_add (Num s m) (Num t n) =
     (let v = signed s m + signed t n
      in if v = 0 then Num (s \<and> t) 0 else to_double (v < 0) \<bar>v\<bar>)"
| "float_add (Num s m) (Infinity t) = Infinity t"
| "float_add (Infinity s) (Num t n) = Infinity s"
| "float_add (Infinity s) (Infinity t) = (if s = t then Infinity s else NaN)"
| "float_add NaN y = NaN"
| "float_add x NaN = NaN"

definition float_sub :: "double \<Rightarrow> double \<Rightarrow> double" where
  "float_sub x y = float_add x (float_neg y)"

text \<open>Multiplication. Zero times an infinity is not-a-number.\<close>

fun float_mul :: "double \<Rightarrow> double \<Rightarrow> double" where
  "float_mul (Num s m) (Num t n) = to_double (s \<noteq> t) (m * n)"
| "float_mul (Num s m) (Infinity t) = (if m = 0 then NaN else Infinity (s \<noteq> t))"
| "float_mul (Infinity s) (Num t n) = (if n = 0 then NaN else Infinity (s \<noteq> t))"
| "float_mul (Infinity s) (Infinity t) = Infinity (s \<noteq> t)"
| "float_mul NaN y = NaN"
| "float_mul x NaN = NaN"

text \<open>
  Division with \<open>/\<close>. Python tests the divisor first and raises
  \<open>ZeroDivisionError\<close> for a zero of either sign, whatever the dividend is.
\<close>

fun float_truediv :: "double \<Rightarrow> double \<Rightarrow> double outcome" where
  "float_truediv (Num s m) (Num t n) =
     (if n = 0 then Raises ZeroDivisionError else Returns (to_double (s \<noteq> t) (m / n)))"
| "float_truediv (Infinity s) (Num t n) =
     (if n = 0 then Raises ZeroDivisionError else Returns (Infinity (s \<noteq> t)))"
| "float_truediv NaN (Num t n) =
     (if n = 0 then Raises ZeroDivisionError else Returns NaN)"
| "float_truediv (Num s m) (Infinity t) = Returns (Num (s \<noteq> t) 0)"
| "float_truediv (Infinity s) (Infinity t) = Returns NaN"
| "float_truediv NaN (Infinity t) = Returns NaN"
| "float_truediv x NaN = Returns NaN"

text \<open>Comparisons. Every comparison with not-a-number is false.\<close>

fun float_le :: "double \<Rightarrow> double \<Rightarrow> bool" where
  "float_le (Num s m) (Num t n) = (signed s m \<le> signed t n)"
| "float_le (Num s m) (Infinity t) = (\<not> t)"
| "float_le (Infinity s) (Num t n) = s"
| "float_le (Infinity s) (Infinity t) = (s \<or> \<not> t)"
| "float_le NaN y = False"
| "float_le x NaN = False"

fun float_lt :: "double \<Rightarrow> double \<Rightarrow> bool" where
  "float_lt (Num s m) (Num t n) = (signed s m < signed t n)"
| "float_lt (Num s m) (Infinity t) = (\<not> t)"
| "float_lt (Infinity s) (Num t n) = s"
| "float_lt (Infinity s) (Infinity t) = (s \<and> \<not> t)"
| "float_lt NaN y = False"
| "float_lt x NaN = False"

definition float_gt :: "double \<Rightarrow> double \<Rightarrow> bool" where
  "float_gt x y = float_lt y x"

text \<open>
  An integer operand of a float operation is converted first. The conversion rounds
  like every other operation and raises \<open>OverflowError\<close> for an integer beyond the
  range of the doubles.
\<close>

definition float_of_int :: "int \<Rightarrow> double outcome" where
  "float_of_int i =
     (case to_double (i < 0) \<bar>of_int i\<bar> of
        Infinity s \<Rightarrow> Raises OverflowError
      | d \<Rightarrow> Returns d)"

definition float_mul_int :: "double \<Rightarrow> int \<Rightarrow> double outcome" where
  "float_mul_int x i =
     (case float_of_int i of
        Raises e \<Rightarrow> Raises e
      | Returns d \<Rightarrow> Returns (float_mul x d))"

text \<open>The literals \<open>0\<close> and \<open>0.5\<close> of the source, as doubles.\<close>

definition float_zero :: double where
  "float_zero = Num False 0"

definition float_half :: double where
  "float_half = Num False (1 / 2)"

section \<open>Product\<close>

text \<open>
  class Product (entities.py, lines 10-106). The fields \<open>_price\<close> and \<open>_quantity\<close>
  are private and exposed through the properties \<open>price\<close> and \<open>quantity\<close>; \<open>id\<close>
  is \<open>None\<close> until the product is stored.
\<close>

record Product =
  prod_id :: "int option"
  prod_name :: string
  prod_price :: double
  prod_quantity :: int



text \<open>
  \<open>update_price\<close> (lines 55-69): the sign check on the new price, then the relative
  change \<open>abs(new_price - self._price) / self._price\<close>, each operation rounded, and
  its comparison with \<open>0.5\<close>.
\<close>

definition update_price :: "Product \<Rightarrow> double \<Rightarrow> unit outcome \<times> Product" where
  "update_price self new_price =
     (if float_le new_price float_zero then (Raises (ValueError Price_not_positive), self)
      else
        (case float_truediv (float_abs (float_sub new_price (prod_price self)))
                (prod_price self) of
           Raises e \<Rightarrow> (Raises e, self)
         | Returns price_change_percent \<Rightarrow>
             if float_gt price_change_percent float_half
               then (Raises (ValueError Price_change_over_50), self)
             else (Returns (), self\<lparr>prod_price := new_price\<rparr>)))"


definition remove_stock :: "Product \<Rightarrow> int \<Rightarrow> unit outcome \<times> Product" where
  "remove_stock self amount =
     (if amount \<le> 0 then (Raises (ValueError Amount_not_positive), self)
      else if prod_quantity self < amount
        then (Raises (ValueError (Insufficient_stock (prod_quantity self))), self)
      else (Returns (), self\<lparr>prod_quantity := prod_quantity self - amount\<rparr>))"

definition is_in_stock :: "Product \<Rightarrow> bool" where
  "is_in_stock self = (prod_quantity self > 0)"




section \<open>OrderItem and Order\<close>

text \<open>
  class OrderItem (entities.py, lines 200-255). The constructor stores its four
  arguments as they are; \<open>product_id\<close> is whatever \<open>Product.id\<close> was, so it can be
  \<open>None\<close>. All four fields are exposed as read-only properties.
\<close>

record OrderItem =
  item_product_id :: "int option"
  item_product_name :: string
  item_price :: double
  item_quantity :: int

text \<open>
  \<open>subtotal\<close> (line 241) multiplies the float price by the integer quantity: the
  quantity is converted to a double, which can raise, and the product is rounded.
\<close>

definition subtotal :: "OrderItem \<Rightarrow> double outcome" where
  "subtotal self = float_mul_int (item_price self) (item_quantity self)"

text \<open>
  Assignment to \<open>item.quantity\<close>: the property of lines 234-236 has no setter, so the
  assignment raises \<open>AttributeError\<close> and the item keeps its quantity.
\<close>

definition OrderItem_set_quantity :: "OrderItem \<Rightarrow> int \<Rightarrow> unit outcome \<times> OrderItem" where
  "OrderItem_set_quantity self v = (Raises AttributeError, self)"

text \<open>
  class Order (entities.py, lines 109-197). The status is a string; the constructor
  accepts any string and starts with an empty list of items.
\<close>

record Order =
  order_id :: "int option"
  order_user_id :: int
  order_status :: string
  order_items :: "OrderItem list"

definition Order_init :: "int \<Rightarrow> int option \<Rightarrow> string \<Rightarrow> Order" where
  "Order_init user_id ident status =
     \<lparr>order_id = ident, order_user_id = user_id, order_status = status, order_items = []\<rparr>"

text \<open>
  The loop of \<open>add_item\<close> (lines 150-153): at the first item with the product's id it
  executes \<open>item.quantity += quantity\<close>, which reads the quantity, adds, and assigns
  the sum to the property, and then returns. The result is \<open>None\<close> when the loop runs
  to its end without a match, and otherwise how the assignment ended together with the
  items after it.
\<close>

fun add_item_loop ::
  "OrderItem list \<Rightarrow> int option \<Rightarrow> int \<Rightarrow> (unit outcome \<times> OrderItem list) option" where
  "add_item_loop [] pid quantity = None"
| "add_item_loop (item # rest) pid quantity =
     (if item_product_id item = pid
        then (case OrderItem_set_quantity item (item_quantity item + quantity) of
                (r, item') \<Rightarrow> Some (r, item' # rest))
      else (case add_item_loop rest pid quantity of
              None \<Rightarrow> None
            | Some (r, rest') \<Rightarrow> Some (r, item # rest')))"

text \<open>
  \<open>add_item\<close> holds references to two objects, the order and the product. Both are
  threaded through, so that what the call does to the product is part of the result.
\<close>

definition add_item :: "Order \<Rightarrow> Product \<Rightarrow> int \<Rightarrow> unit outcome \<times> Order \<times> Product" where
  "add_item self product quantity =
     (if quantity \<le> 0 then (Raises (ValueError Amount_not_positive), self, product)
      else if \<not> is_in_stock product
        then (Raises (ValueError (Out_of_stock (prod_name product))), self, product)
      else if prod_quantity product < quantity
        then (Raises (ValueError
                (Insufficient_for_order (prod_name product) (prod_quantity product) quantity)),
              self, product)
      else
        (case add_item_loop (order_items self) (prod_id product) quantity of
           Some (r, items') \<Rightarrow> (r, self\<lparr>order_items := items'\<rparr>, product)
         | None \<Rightarrow>
             let item = \<lparr>item_product_id = prod_id product,
                         item_product_name = prod_name product,
                         item_price = prod_price product,
                         item_quantity = quantity\<rparr>
             in (Returns (), self\<lparr>order_items := order_items self @ [item]\<rparr>, product)))"












definition confirm :: "Order \<Rightarrow> unit outcome \<times> Order" where
  "confirm self =
     (if order_items self = [] then (Raises (ValueError Order_empty), self)
      else if order_status self \<noteq> ''pending''
        then (Raises (ValueError Only_pending_confirmable), self)
      else (Returns (), self\<lparr>order_status := ''confirmed''\<rparr>))"

definition cancel :: "Order \<Rightarrow> unit outcome \<times> Order" where
  "cancel self =
     (if order_status self \<in> set [''delivered'', ''cancelled'']
        then (Raises (ValueError (Cannot_cancel (order_status self))), self)
      else (Returns (), self\<lparr>order_status := ''cancelled''\<rparr>))"




section \<open>Client scenarios and invariants\<close>

text \<open>
  A client that adds a product to an order and afterwards changes the price of that
  product. The result is the pair of objects after both calls.
\<close>

definition add_then_reprice :: "Order \<Rightarrow> Product \<Rightarrow> int \<Rightarrow> double \<Rightarrow> Order \<times> Product" where
  "add_then_reprice self product quantity new_price =
     (case add_item self product quantity of
        (_, order', product') \<Rightarrow> (order', snd (update_price product' new_price)))"




text \<open>
  The sum of price times quantity in exact arithmetic, for items with finite prices,
  and the numbers that a double holds without rounding. \<open>no_rounding\<close> says that
  every price is a finite double (its magnitude is not negative) and that the
  conversion of every quantity, every product and every partial sum of a list of
  items is such a number.
\<close>

definition representable :: "rat \<Rightarrow> bool" where
  "representable x = (\<bar>x\<bar> < 2 ^ 1024 \<and> round_magnitude \<bar>x\<bar> = \<bar>x\<bar>)"






section \<open>Rounding\<close>

text \<open>\<open>binade x\<close> is the exponent of the power of two at or below \<open>x\<close>.\<close>

lemma binade_bounds:
  assumes "0 < x"
  shows "2 powi binade x \<le> x \<and> x < 2 powi (binade x + 1)"
proof -
  obtain a b where q: "quotient_of x = (a, b)" by (cases "quotient_of x")
  then have b: "0 < b" and x: "x = of_int a / of_int b"
    using quotient_of_denom_pos [OF q] quotient_of_div [OF q] by simp_all
  from assms x b have a: "0 < a" by (simp add: zero_less_divide_iff)
  define la where "la = bitlen a"
  define lb where "lb = bitlen b"
  from bitlen_bounds [OF a] have a1: "(2::int) ^ nat (la - 1) \<le> a" and a2: "a < 2 ^ nat la"
    by (simp_all add: la_def)
  from bitlen_bounds [OF b] have b1: "(2::int) ^ nat (lb - 1) \<le> b" and b2: "b < 2 ^ nat lb"
    by (simp_all add: lb_def)
  have la: "1 \<le> la" using a by (simp add: la_def bitlen_alt_def)
  have lb: "1 \<le> lb" using b by (simp add: lb_def bitlen_alt_def)
  have ra1: "(2::rat) powi (la - 1) \<le> of_int a"
  proof -
    have "(2::rat) powi (la - 1) = of_int (2 ^ nat (la - 1))" using la by (simp add: power_int_def)
    also have "\<dots> \<le> of_int a" using a1 by (simp only: of_int_le_iff)
    finally show ?thesis .
  qed
  have ra2: "of_int a < (2::rat) powi la"
  proof -
    have "(of_int a :: rat) < of_int (2 ^ nat la)" using a2 by (simp only: of_int_less_iff)
    also have "\<dots> = 2 powi la" using la by (simp add: power_int_def)
    finally show ?thesis .
  qed
  have rb1: "(2::rat) powi (lb - 1) \<le> of_int b"
  proof -
    have "(2::rat) powi (lb - 1) = of_int (2 ^ nat (lb - 1))" using lb by (simp add: power_int_def)
    also have "\<dots> \<le> of_int b" using b1 by (simp only: of_int_le_iff)
    finally show ?thesis .
  qed
  have rb2: "of_int b < (2::rat) powi lb"
  proof -
    have "(of_int b :: rat) < of_int (2 ^ nat lb)" using b2 by (simp only: of_int_less_iff)
    also have "\<dots> = 2 powi lb" using lb by (simp add: power_int_def)
    finally show ?thesis .
  qed
  have bpos: "(0::rat) < of_int b" using b by simp
  have upper: "x < 2 powi (la - lb + 1)"
  proof -
    have "of_int a < (2::rat) powi (la - lb + 1) * 2 powi (lb - 1)"
      using ra2 by (simp flip: power_int_add)
    also have "\<dots> \<le> 2 powi (la - lb + 1) * of_int b"
      using rb1 by (intro mult_left_mono) simp_all
    finally show ?thesis using bpos by (simp add: x pos_divide_less_eq)
  qed
  have lower: "2 powi (la - lb - 1) \<le> x"
  proof -
    have "(2::rat) powi (la - lb - 1) * of_int b \<le> 2 powi (la - lb - 1) * 2 powi lb"
      using rb2 by (intro mult_left_mono) simp_all
    also have "\<dots> = 2 powi (la - 1)" by (simp flip: power_int_add)
    also have "\<dots> \<le> of_int a" by (rule ra1)
    finally show ?thesis using bpos by (simp add: x pos_le_divide_eq)
  qed
  show ?thesis
  proof (cases "2 powi (la - lb) \<le> x")
    case True
    then have "binade x = la - lb" by (simp add: binade_def q la_def lb_def Let_def)
    with True upper show ?thesis by simp
  next
    case False
    then have "binade x = la - lb - 1" by (simp add: binade_def q la_def lb_def Let_def)
    with False lower show ?thesis by simp
  qed
qed

lemma power_int_2_less_cancel:
  assumes "(2::rat) powi m < 2 powi n"
  shows "m < n"
proof (rule ccontr)
  assume "\<not> m < n"
  then have "n \<le> m" by simp
  then have "(2::rat) powi n \<le> 2 powi m" by (intro power_int_increasing) simp_all
  with assms show False by simp
qed

lemma binade_eqI:
  assumes "2 powi e \<le> x" and "x < 2 powi (e + 1)"
  shows "binade x = e"
proof -
  have "(0::rat) < 2 powi e" by simp
  from this assms(1) have pos: "0 < x" by (rule less_le_trans)
  from binade_bounds [OF pos]
  have l: "2 powi binade x \<le> x" and u: "x < 2 powi (binade x + 1)" by simp_all
  from l assms(2) have "(2::rat) powi binade x < 2 powi (e + 1)" by simp
  then have "binade x < e + 1" by (rule power_int_2_less_cancel)
  moreover from assms(1) u have "(2::rat) powi e < 2 powi (binade x + 1)" by simp
  then have "e < binade x + 1" by (rule power_int_2_less_cancel)
  ultimately show ?thesis by simp
qed

lemma binade_mono:
  assumes "0 < x" and "x \<le> y"
  shows "binade x \<le> binade y"
proof -
  from assms have y: "0 < y" by simp
  from binade_bounds [OF assms(1)] binade_bounds [OF y] assms(2)
  have "(2::rat) powi binade x < 2 powi (binade y + 1)" by simp
  then have "binade x < binade y + 1" by (rule power_int_2_less_cancel)
  then show ?thesis by simp
qed

lemma pow2_div: "(2::rat) powi a / 2 powi b = 2 powi (a - b)"
  by (simp add: power_int_diff)

lemma pow2_mult: "(2::rat) powi a * 2 powi b = 2 powi (a + b)"
  by (simp add: power_int_add)

lemma ulp_pos [simp]: "0 < ulp x"
  by (simp add: ulp_def)

lemma ulp_nonneg [simp]: "0 \<le> ulp x"
  by (simp add: ulp_def)

lemma ulp_neq0 [simp]: "ulp x \<noteq> 0"
  by (simp add: ulp_def)

text \<open>Rounding to an integer moves to a neighbour, keeps integers and keeps the order.\<close>

lemma round_half_even_range:
  "\<lfloor>q\<rfloor> \<le> round_half_even q \<and> round_half_even q \<le> \<lfloor>q\<rfloor> + 1"
  by (simp add: round_half_even_def Let_def)

lemma round_half_even_of_int [simp]: "round_half_even (of_int n) = n"
  by (simp add: round_half_even_def)

lemma round_half_even_lower:
  assumes "of_int k \<le> q"
  shows "k \<le> round_half_even q"
proof -
  from assms have "k \<le> \<lfloor>q\<rfloor>" by (simp add: le_floor_iff)
  with round_half_even_range [of q] show ?thesis by linarith
qed

lemma round_half_even_upper:
  assumes "q \<le> of_int k"
  shows "round_half_even q \<le> k"
proof (cases "q = of_int k")
  case True
  then show ?thesis by simp
next
  case False
  with assms have "q < of_int k" by simp
  then have "\<lfloor>q\<rfloor> < k" by (simp add: floor_less_iff)
  with round_half_even_range [of q] show ?thesis by linarith
qed

lemma round_half_even_mono:
  assumes "q \<le> q'"
  shows "round_half_even q \<le> round_half_even q'"
proof (cases "\<lfloor>q\<rfloor> = \<lfloor>q'\<rfloor>")
  case True
  with assms show ?thesis by (auto simp: round_half_even_def Let_def)
next
  case False
  with assms have "\<lfloor>q\<rfloor> < \<lfloor>q'\<rfloor>" using floor_mono [OF assms] by linarith
  with round_half_even_range [of q] round_half_even_range [of q'] show ?thesis by linarith
qed

lemma round_magnitude_0 [simp]: "round_magnitude 0 = 0"
  by (simp add: round_magnitude_def)

lemma round_magnitude_nonneg:
  assumes "0 \<le> x"
  shows "0 \<le> round_magnitude x"
proof -
  from assms have "of_int 0 \<le> x / ulp x" by simp
  then have "0 \<le> round_half_even (x / ulp x)" by (rule round_half_even_lower)
  then have "0 \<le> of_int (round_half_even (x / ulp x)) * ulp x"
    by (intro mult_nonneg_nonneg) simp_all
  then show ?thesis by (simp add: round_magnitude_def)
qed

text \<open>A magnitude that is a whole number of units in the last place is not changed.\<close>

lemma round_magnitude_grid:
  assumes "x / ulp x = of_int k"
  shows "round_magnitude x = x"
proof -
  have "of_int k * ulp x = x" using assms
    by (simp add: field_simps)
  then show ?thesis by (simp add: round_magnitude_def assms)
qed

lemma grid_of_round_magnitude:
  assumes "round_magnitude x = x"
  shows "\<exists>k. x / ulp x = of_int k"
proof (cases "x = 0")
  case True
  then have "x / ulp x = of_int 0" by simp
  then show ?thesis by blast
next
  case False
  with assms have "of_int (round_half_even (x / ulp x)) * ulp x = x"
    by (simp add: round_magnitude_def)
  moreover have "ulp x \<noteq> 0" by simp
  ultimately have "x / ulp x = of_int (round_half_even (x / ulp x))"
    by (metis nonzero_mult_div_cancel_right)
  then show ?thesis by blast
qed

text \<open>Rounding keeps the order, also across a change of exponent.\<close>

lemma round_magnitude_mono:
  assumes "0 \<le> x" and "x \<le> y"
  shows "round_magnitude x \<le> round_magnitude y"
proof (cases "x = 0")
  case True
  with assms round_magnitude_nonneg [of y] show ?thesis by simp
next
  case False
  with assms have x: "0 < x" and y: "0 < y" by simp_all
  then have y0: "y \<noteq> 0" by simp
  define bx where "bx = max (binade x) (- 1022)"
  define by' where "by' = max (binade y) (- 1022)"
  have ux: "ulp x = 2 powi (bx - 52)" and uy: "ulp y = 2 powi (by' - 52)"
    by (simp_all add: ulp_def bx_def by'_def)
  from binade_mono [OF x assms(2)] have le: "bx \<le> by'" by (simp add: bx_def by'_def)
  show ?thesis
  proof (cases "bx = by'")
    case True
    then have same: "ulp x = ulp y" by (simp add: ux uy)
    have "x / ulp y \<le> y / ulp y" using assms(2)
      by (intro divide_right_mono) simp_all
    then have "round_half_even (x / ulp y) \<le> round_half_even (y / ulp y)"
      by (rule round_half_even_mono)
    then have "of_int (round_half_even (x / ulp y)) * ulp y
               \<le> of_int (round_half_even (y / ulp y)) * ulp y"
      by (intro mult_right_mono) simp_all
    then show ?thesis using False y0 by (simp add: round_magnitude_def same)
  next
    case False
    with le have lt: "bx < by'" by simp
    then have byb: "by' = binade y" by (simp add: by'_def bx_def max_def split: if_splits)
    have "binade x \<le> bx" by (simp add: bx_def)
    then have "(2::rat) powi (binade x + 1) \<le> 2 powi (bx + 1)"
      by (intro power_int_increasing) simp_all
    with binade_bounds [OF x] have xu: "x < 2 powi (bx + 1)" by simp
    have "x / ulp x < 2 powi (bx + 1) / 2 powi (bx - 52)"
      using xu by (simp add: ux divide_strict_right_mono)
    also have "\<dots> = 2 powi (bx + 1 - (bx - 52))" by (rule pow2_div)
    also have "\<dots> = of_int (2 ^ 53)" by simp
    finally have "x / ulp x \<le> of_int (2 ^ 53)" by simp
    then have "round_half_even (x / ulp x) \<le> 2 ^ 53" by (rule round_half_even_upper)
    then have "(of_int (round_half_even (x / ulp x)) :: rat) \<le> of_int (2 ^ 53)"
      by (simp only: of_int_le_iff)
    then have "of_int (round_half_even (x / ulp x)) * ulp x \<le> of_int (2 ^ 53) * ulp x"
      by (intro mult_right_mono) simp_all
    also have "\<dots> = 2 powi 53 * 2 powi (bx - 52)" by (simp add: ux)
    also have "\<dots> = 2 powi (53 + (bx - 52))" by (rule pow2_mult)
    also have "\<dots> = 2 powi (bx + 1)" by (simp add: algebra_simps)
    finally have rx: "round_magnitude x \<le> 2 powi (bx + 1)"
      using \<open>x \<noteq> 0\<close> by (simp add: round_magnitude_def)
    from binade_bounds [OF y] have "2 powi by' \<le> y" by (simp add: byb)
    then have "2 powi by' / 2 powi (by' - 52) \<le> y / ulp y"
      by (simp add: uy divide_right_mono)
    moreover have "(2::rat) powi by' / 2 powi (by' - 52) = of_int (2 ^ 52)"
    proof -
      have "(2::rat) powi by' / 2 powi (by' - 52) = 2 powi (by' - (by' - 52))" by (rule pow2_div)
      also have "\<dots> = of_int (2 ^ 52)" by simp
      finally show ?thesis .
    qed
    ultimately have "of_int (2 ^ 52) \<le> y / ulp y" by simp
    then have "2 ^ 52 \<le> round_half_even (y / ulp y)" by (rule round_half_even_lower)
    then have "(of_int (2 ^ 52) :: rat) \<le> of_int (round_half_even (y / ulp y))"
      by (simp only: of_int_le_iff)
    then have e1: "of_int (2 ^ 52) * ulp y \<le> of_int (round_half_even (y / ulp y)) * ulp y"
      by (intro mult_right_mono) simp_all
    have e2: "of_int (2 ^ 52) * ulp y = 2 powi by'"
    proof -
      have "of_int (2 ^ 52) * ulp y = 2 powi 52 * 2 powi (by' - 52)" by (simp add: uy)
      also have "\<dots> = 2 powi (52 + (by' - 52))" by (rule pow2_mult)
      also have "\<dots> = 2 powi by'" by simp
      finally show ?thesis .
    qed
    have rm: "round_magnitude y = of_int (round_half_even (y / ulp y)) * ulp y"
      using y0 by (simp add: round_magnitude_def)
    have ry: "2 powi by' \<le> round_magnitude y"
      unfolding rm e2 [symmetric] by (rule e1)
    from lt have "(2::rat) powi (bx + 1) \<le> 2 powi by'"
      by (intro power_int_increasing) simp_all
    with rx ry show ?thesis by linarith
  qed
qed

text \<open>
  Rounding a concrete number: find its exponent, then round the number of units in
  the last place.
\<close>

lemma floor_rat_numeral [simp]:
  "\<lfloor>(numeral a :: rat) / numeral b\<rfloor> = numeral a div numeral b"
  by (metis floor_divide_of_int_eq of_int_numeral)

lemma round_magnitude_eval:
  assumes "2 powi e \<le> x" and "x < 2 powi (e + 1)"
    and "round_half_even (x / 2 powi (max e (- 1022) - 52)) = n"
  shows "round_magnitude x = of_int n * 2 powi (max e (- 1022) - 52)"
proof -
  from assms(1,2) have b: "binade x = e" by (rule binade_eqI)
  have "(0::rat) < 2 powi e" by simp
  from this assms(1) have "0 < x" by (rule less_le_trans)
  then show ?thesis using assms(3) by (simp add: round_magnitude_def ulp_def b)
qed

text \<open>Every double is a whole multiple of the smallest subnormal number.\<close>

lemma grid_multiple:
  assumes "round_magnitude x = x"
  shows "\<exists>j. x = of_int j * 2 powi (- 1074)"
proof -
  from grid_of_round_magnitude [OF assms] obtain k where k: "x / ulp x = of_int k" by blast
  define E where "E = max (binade x) (- 1022) - 52"
  define t where "t = (2::rat) powi (- 1074)"
  have E: "0 \<le> E + 1074" by (simp add: E_def)
  have "E = (E + 1074) + (- 1074)" by simp
  then have "(2::rat) powi E = 2 powi ((E + 1074) + (- 1074))" by (rule arg_cong)
  also have "\<dots> = 2 powi (E + 1074) * 2 powi (- 1074)" by (rule pow2_mult [symmetric])
  also have "(2::rat) powi (E + 1074) = of_int (2 ^ nat (E + 1074))"
    using E by (simp add: power_int_def)
  finally have "(2::rat) powi E = of_int (2 ^ nat (E + 1074)) * t" by (simp only: t_def)
  moreover have "ulp x = 2 powi E" by (simp only: ulp_def E_def)
  ultimately have u: "ulp x = of_int (2 ^ nat (E + 1074)) * t" by simp
  from k have "x = of_int k * ulp x" by (simp add: field_simps)
  also have "\<dots> = of_int (k * 2 ^ nat (E + 1074)) * t"
    by (simp add: u)
  finally show ?thesis unfolding t_def by blast
qed

lemma pow2_pos: "(0::rat) < 2 powi e"
  by simp

lemma multiple_of_ulp_grid:
  assumes "x = of_int j * 2 powi E" and "ulp x = 2 powi E"
  shows "round_magnitude x = x"
proof -
  from assms have "x / ulp x = of_int j" by simp
  then show ?thesis by (rule round_magnitude_grid)
qed

text \<open>Below the normal range every such multiple is a double.\<close>

lemma small_multiple_grid:
  assumes "x = of_int j * 2 powi (- 1074)" and "0 \<le> x" and "x < 2 powi (- 1022)"
  shows "round_magnitude x = x"
proof (cases "x = 0")
  case True
  then show ?thesis by simp
next
  case False
  with assms(2) have pos: "0 < x" by simp
  have "binade x < - 1022"
  proof (rule ccontr)
    assume "\<not> binade x < - 1022"
    then have "- 1022 \<le> binade x" by simp
    then have "(2::rat) powi (- 1022) \<le> 2 powi binade x"
      by (rule power_int_increasing) simp
    also from binade_bounds [OF pos] have "\<dots> \<le> x" by (rule conjunct1)
    finally have "\<not> x < 2 powi (- 1022)" by (rule leD)
    with assms(3) show False by blast
  qed
  then have e: "max (binade x) (- 1022) - 52 = - 1074" by simp
  have "ulp x = 2 powi (- 1074)" by (simp only: ulp_def e)
  with assms(1) show ?thesis by (rule multiple_of_ulp_grid)
qed

text \<open>Half of a double in the normal range, away from its lower end, is a double.\<close>

lemma half_pow2: "(2::rat) powi (e - 1) = 2 powi e / 2"
  using pow2_div [of e 1] by simp

lemma half_grid:
  assumes "round_magnitude v = v" and "2 powi (- 1021) \<le> v"
  shows "round_magnitude (v / 2) = v / 2"
proof -
  have "(0::rat) < 2 powi (- 1021)" by (rule pow2_pos)
  from this assms(2) have pos: "0 < v" by (rule less_le_trans)
  define b where "b = binade v"
  from binade_bounds [OF pos] have l: "2 powi b \<le> v" and u: "v < 2 powi (b + 1)"
    by (simp_all add: b_def)
  have b: "- 1021 \<le> b"
  proof (rule ccontr)
    assume "\<not> - 1021 \<le> b"
    then have "b + 1 \<le> - 1021" by simp
    then have "(2::rat) powi (b + 1) \<le> 2 powi (- 1021)"
      by (rule power_int_increasing) simp
    with u have "v < 2 powi (- 1021)" by (rule less_le_trans)
    moreover from assms(2) have "\<not> v < 2 powi (- 1021)" by (rule leD)
    ultimately show False by blast
  qed
  have bh: "binade (v / 2) = b - 1"
  proof (rule binade_eqI)
    show "2 powi (b - 1) \<le> v / 2" using l by (simp add: half_pow2)
    have "(2::rat) powi (b - 1 + 1) = 2 powi b" by simp
    also have "\<dots> = 2 powi (b + 1) / 2" using half_pow2 [of "b + 1"] by simp
    finally show "v / 2 < 2 powi (b - 1 + 1)" using u by simp
  qed
  have mb: "max b (- 1022) = b" and mh: "max (b - 1) (- 1022) = b - 1" using b by simp_all
  have uv: "ulp v = 2 powi (b - 52)" by (simp only: ulp_def b_def [symmetric] mb)
  have uh: "ulp (v / 2) = 2 powi (b - 52) / 2"
  proof -
    have e: "b - 1 - 52 = b - 52 - 1" by simp
    have "ulp (v / 2) = 2 powi (b - 52 - 1)" by (simp only: ulp_def bh mh e)
    also have "\<dots> = 2 powi (b - 52) / 2" by (rule half_pow2)
    finally show ?thesis .
  qed
  from grid_of_round_magnitude [OF assms(1)] obtain k where "v / ulp v = of_int k" by blast
  then have "(v / 2) / ulp (v / 2) = of_int k" by (simp add: uv uh)
  then show ?thesis by (rule round_magnitude_grid)
qed

lemma round_magnitude_half: "round_magnitude (1 / 2) = 1 / 2"
proof -
  have "round_magnitude (1 / 2) = of_int (2 ^ 52) * 2 powi (max (- 1) (- 1022) - 52)"
    by (rule round_magnitude_eval) (simp_all add: round_half_even_def Let_def)
  also have "\<dots> = 1 / 2" by simp
  finally show ?thesis .
qed

text \<open>
  When two doubles differ by at most half of the second one, the rounded difference
  is still at most that half.
\<close>

lemma rounded_difference_le_half:
  assumes v: "round_magnitude v = v" "0 < v"
    and v': "round_magnitude v' = v'"
    and x: "\<bar>v' - v\<bar> \<le> v / 2"
  shows "round_magnitude \<bar>v' - v\<bar> \<le> v / 2"
proof (cases "2 powi (- 1021) \<le> v")
  case True
  have "0 \<le> \<bar>v' - v\<bar>" by simp
  from this x have "round_magnitude \<bar>v' - v\<bar> \<le> round_magnitude (v / 2)"
    by (rule round_magnitude_mono)
  also have "\<dots> = v / 2" using v(1) True by (rule half_grid)
  finally show ?thesis .
next
  case False
  define lo where "lo = (2::rat) powi (- 1021)"
  define t where "t = (2::rat) powi (- 1074)"
  from False have small: "v < lo" by (simp only: lo_def not_le)
  from grid_multiple [OF v(1)] obtain j where j: "v = of_int j * t"
    unfolding t_def by blast
  from grid_multiple [OF v'] obtain j' where j': "v' = of_int j' * t"
    unfolding t_def by blast
  have tpos: "0 < t" unfolding t_def by (rule pow2_pos)
  have m: "\<bar>v' - v\<bar> = of_int \<bar>j' - j\<bar> * t"
  proof -
    have "v' - v = of_int (j' - j) * t" by (simp add: j j' algebra_simps)
    then have "\<bar>v' - v\<bar> = \<bar>of_int (j' - j) :: rat\<bar> * \<bar>t\<bar>"
      by (simp only: abs_mult)
    then show ?thesis using tpos by simp
  qed
  have "lo / 2 = 2 powi (- 1021 - 1)" unfolding lo_def by (rule half_pow2 [symmetric])
  also have "- 1021 - 1 = (- 1022 :: int)" by simp
  finally have lh: "lo / 2 = 2 powi (- 1022)" .
  from small have "v / 2 < lo / 2" by simp
  with x have "\<bar>v' - v\<bar> < lo / 2" by simp
  then have lt: "\<bar>v' - v\<bar> < 2 powi (- 1022)" by (simp only: lh)
  have "0 \<le> \<bar>v' - v\<bar>" by simp
  with m [unfolded t_def] have "round_magnitude \<bar>v' - v\<bar> = \<bar>v' - v\<bar>"
    using lt by (rule small_multiple_grid)
  with x show ?thesis by simp
qed

section \<open>Product: the price check in exact terms\<close>

lemma to_double_below:
  assumes "round_magnitude x < 2 ^ 1024"
  shows "to_double s x = Num s (round_magnitude x)"
  using assms by (simp add: to_double_def Let_def)


text \<open>
  A new price within half of the old one, both finite doubles: every rounding on the
  way stays at or below one half, and the price is accepted.
\<close>

lemma update_price_exact_accept:
  assumes p: "prod_price self = Num False v"
    and dv: "is_double (Num False v)" and dv': "is_double (Num False v')"
    and pos: "0 < v" "0 < v'"
    and ratio: "\<bar>v' - v\<bar> / v \<le> 1 / 2"
  shows "update_price self (Num False v') = (Returns (), self\<lparr>prod_price := Num False v'\<rparr>)"
proof -
  from dv have gv: "round_magnitude v = v" and bv: "v < 2 ^ 1024" by simp_all
  from dv' have gv': "round_magnitude v' = v'" by simp
  define x where "x = \<bar>v' - v\<bar>"
  from ratio pos(1) have xh: "x \<le> v / 2" by (simp add: x_def field_simps)
  define d where "d = round_magnitude x"
  from rounded_difference_le_half [OF gv pos(1) gv'] xh
  have dh: "d \<le> v / 2" by (simp add: d_def x_def)
  have d0: "0 \<le> d" unfolding d_def by (rule round_magnitude_nonneg) (simp add: x_def)
  from dh bv pos(1) have dlt: "d < 2 ^ 1024" by linarith
  have sub: "float_abs (float_sub (Num False v') (Num False v)) = Num False d"
  proof (cases "v' - v = 0")
    case True
    then have "x = 0" by (simp add: x_def)
    then have "d = 0" by (simp add: d_def)
    with True show ?thesis by (simp add: float_sub_def signed_def)
  next
    case False
    have "to_double (v' - v < 0) x = Num (v' - v < 0) d"
      unfolding d_def using dlt [unfolded d_def] by (rule to_double_below)
    with False show ?thesis by (simp add: float_sub_def signed_def Let_def x_def)
  qed
  define r where "r = round_magnitude (d / v)"
  have "d / v \<le> 1 / 2" using dh pos(1) by (simp add: field_simps)
  moreover have "0 \<le> d / v" using d0 pos(1) by simp
  ultimately have "r \<le> round_magnitude (1 / 2)"
    unfolding r_def by (intro round_magnitude_mono)
  then have rh: "r \<le> 1 / 2" by (simp only: round_magnitude_half)
  then have "r < 2 ^ 1024" by (rule le_less_trans) simp
  then have "to_double False (d / v) = Num False r"
    unfolding r_def by (rule to_double_below)
  with pos(1) have quot: "float_truediv (Num False d) (Num False v) = Returns (Num False r)"
    by simp
  have gt: "\<not> float_gt (Num False r) float_half"
    using rh by (simp add: float_gt_def float_half_def signed_def)
  have le: "\<not> float_le (Num False v') float_zero"
    using pos(2) by (simp add: float_zero_def signed_def)
  show ?thesis
    by (simp only: update_price_def p le sub quot gt if_False outcome.case)
qed







section \<open>Product: price and stock\<close>

lemma small_int_grid:
  assumes "0 < n" and "n < 2 ^ 53"
  shows "round_magnitude (of_int n) = of_int n"
proof -
  define x where "x = (of_int n :: rat)"
  from assms(1) have pos: "0 < x" by (simp add: x_def)
  define b where "b = binade x"
  from binade_bounds [OF pos] have l: "2 powi b \<le> x" and u: "x < 2 powi (b + 1)"
    by (simp_all add: b_def)
  have "x < of_int (2 ^ 53)" unfolding x_def using assms(2) by (simp only: of_int_less_iff)
  then have "x < 2 powi 53" by simp
  with l have "(2::rat) powi b < 2 powi 53" by (rule le_less_trans)
  then have b53: "b < 53" by (rule power_int_2_less_cancel)
  have "of_int 1 \<le> x" unfolding x_def using assms(1) by (simp only: of_int_le_iff)
  then have "2 powi 0 \<le> x" by simp
  from this u have "(2::rat) powi 0 < 2 powi (b + 1)" by (rule le_less_trans)
  then have b0: "0 \<le> b" using power_int_2_less_cancel [of 0 "b + 1"] by simp
  from b0 have "max b (- 1022) = b" by simp
  then have ux: "ulp x = 2 powi (b - 52)" by (simp only: ulp_def b_def [symmetric])
  have "x / ulp x = x * 2 powi (52 - b)"
    unfolding ux using power_int_minus [of "2::rat" "b - 52"] by (simp add: field_simps)
  also have "(2::rat) powi (52 - b) = of_int (2 ^ nat (52 - b))"
    using b53 by (simp add: power_int_def)
  finally have "x / ulp x = of_int (n * 2 ^ nat (52 - b))" by (simp add: x_def)
  then show ?thesis unfolding x_def by (rule round_magnitude_grid)
qed

lemma small_int_is_double:
  assumes "0 \<le> n" and "n < 2 ^ 53"
  shows "is_double (Num s (of_int n))"
proof (cases "n = 0")
  case True
  then show ?thesis by simp
next
  case False
  with assms(1) have "0 < n" by simp
  from small_int_grid [OF this assms(2)] have "round_magnitude (of_int n) = of_int n" .
  moreover have "(of_int n :: rat) < of_int (2 ^ 53)"
    using assms(2) by (simp only: of_int_less_iff)
  then have "(of_int n :: rat) < 2 ^ 1024" by simp
  ultimately show ?thesis using assms(1) by simp
qed


lemma gt_zero_not_le:
  assumes "float_gt x float_zero"
  shows "\<not> float_le x float_zero \<and> x \<noteq> NaN"
  using assms by (cases x) (auto simp: float_zero_def float_gt_def)








text \<open>
  C4. For a product with quantity \<open>q \<ge> 0\<close> and any amount \<open>a\<close>: \<open>remove_stock a\<close>
  returns exactly when \<open>0 < a \<le> q\<close>, and then the quantity is \<open>q - a\<close> and nothing
  else has changed; in every other case a \<open>ValueError\<close> is raised and the product is
  unchanged.
\<close>

theorem remove_stock_iff:
  assumes "0 \<le> prod_quantity self"
  shows "(0 < a \<and> a \<le> prod_quantity self \<longrightarrow>
            remove_stock self a =
              (Returns (), self\<lparr>prod_quantity := prod_quantity self - a\<rparr>))
       \<and> (\<not> (0 < a \<and> a \<le> prod_quantity self) \<longrightarrow>
            (\<exists>r. remove_stock self a = (Raises (ValueError r), self)))
       \<and> (fst (remove_stock self a) = Returns () \<longleftrightarrow> 0 < a \<and> a \<le> prod_quantity self)"
  by (auto simp: remove_stock_def)

theorem remove_stock_iff_witness:
  "remove_stock
     \<lparr>prod_id = Some 1, prod_name = ''Widget'', prod_price = Num False 10, prod_quantity = 5\<rparr> 5
     = (Returns (),
        \<lparr>prod_id = Some 1, prod_name = ''Widget'', prod_price = Num False 10,
         prod_quantity = 0\<rparr>)
   \<and> \<not> is_in_stock
         (snd (remove_stock
           \<lparr>prod_id = Some 1, prod_name = ''Widget'', prod_price = Num False 10,
            prod_quantity = 5\<rparr> 5))
   \<and> (\<exists>r. remove_stock
          \<lparr>prod_id = Some 1, prod_name = ''Widget'', prod_price = Num False 10,
           prod_quantity = 5\<rparr> 6
     = (Raises (ValueError r),
        \<lparr>prod_id = Some 1, prod_name = ''Widget'', prod_price = Num False 10,
         prod_quantity = 5\<rparr>))"
proof -
  let ?p = "\<lparr>prod_id = Some 1, prod_name = ''Widget'', prod_price = Num False 10,
             prod_quantity = 5\<rparr>"
  have q: "0 \<le> prod_quantity ?p" by simp
  from remove_stock_iff [OF q, of 5] remove_stock_iff [OF q, of 6]
  show ?thesis by (simp add: is_in_stock_def)
qed







section \<open>Order: items\<close>

text \<open>
  The loop finds no item exactly when no item carries the product's id; when it finds
  one, the assignment to the item's quantity raises and the list is as before.
\<close>

lemma add_item_loop_None:
  "add_item_loop its pid q = None \<longleftrightarrow> pid \<notin> item_product_id ` set its"
  by (induction its) (auto simp: OrderItem_set_quantity_def split: option.splits)

lemma add_item_loop_Some:
  "add_item_loop its pid q = Some (r, its') \<Longrightarrow> r = Raises AttributeError \<and> its' = its"
  by (induction its arbitrary: its')
     (auto simp: OrderItem_set_quantity_def split: option.splits if_splits)

lemma add_item_existing:
  assumes "prod_id product \<in> item_product_id ` set (order_items self)"
    and "0 < quantity" and "quantity \<le> prod_quantity product"
  shows "add_item self product quantity = (Raises AttributeError, self, product)"
proof -
  from assms(1) obtain r its'
    where s: "add_item_loop (order_items self) (prod_id product) quantity = Some (r, its')"
    using add_item_loop_None [of "order_items self" "prod_id product" quantity]
    by (cases "add_item_loop (order_items self) (prod_id product) quantity") auto
  from add_item_loop_Some [OF s] s assms(2,3) show ?thesis
    by (simp add: add_item_def is_in_stock_def)
qed

text \<open>
  C1. An order holds one item for product 1 with quantity 2; product 1 has 5 in stock.
  Adding 1 more of product 1 raises \<open>AttributeError\<close>, and the item still has
  quantity 2: the quantities are not merged.
\<close>

theorem add_item_merge_raises:
  "add_item
     \<lparr>order_id = Some 1, order_user_id = 1, order_status = ''pending'',
      order_items = [\<lparr>item_product_id = Some 1, item_product_name = ''Widget'',
                      item_price = Num False 10, item_quantity = 2\<rparr>]\<rparr>
     \<lparr>prod_id = Some 1, prod_name = ''Widget'', prod_price = Num False 10, prod_quantity = 5\<rparr>
     1
   = (Raises AttributeError,
      \<lparr>order_id = Some 1, order_user_id = 1, order_status = ''pending'',
       order_items = [\<lparr>item_product_id = Some 1, item_product_name = ''Widget'',
                       item_price = Num False 10, item_quantity = 2\<rparr>]\<rparr>,
      \<lparr>prod_id = Some 1, prod_name = ''Widget'', prod_price = Num False 10,
       prod_quantity = 5\<rparr>)"
  by (simp add: add_item_def is_in_stock_def OrderItem_set_quantity_def)

text \<open>
  C5. \<open>confirm\<close> raises exactly when the order has no items or its status is not
  pending, and otherwise sets the status to confirmed. \<open>cancel\<close> raises exactly when
  the status is delivered or cancelled, and otherwise sets the status to cancelled.
  Confirming again after a successful \<open>confirm\<close> raises, and so does cancelling again
  after a successful \<open>cancel\<close>. A call that raises leaves the order unchanged.
\<close>

theorem order_status_machine:
  "(order_items self = [] \<or> order_status self \<noteq> ''pending'' \<longrightarrow>
      (\<exists>r. confirm self = (Raises (ValueError r), self)))
   \<and> (order_items self \<noteq> [] \<and> order_status self = ''pending'' \<longrightarrow>
      confirm self = (Returns (), self\<lparr>order_status := ''confirmed''\<rparr>))
   \<and> (order_status self = ''delivered'' \<or> order_status self = ''cancelled'' \<longrightarrow>
      (\<exists>r. cancel self = (Raises (ValueError r), self)))
   \<and> (order_status self \<noteq> ''delivered'' \<and> order_status self \<noteq> ''cancelled'' \<longrightarrow>
      cancel self = (Returns (), self\<lparr>order_status := ''cancelled''\<rparr>))
   \<and> (fst (confirm self) = Returns () \<longrightarrow>
      (\<exists>r. confirm (snd (confirm self)) = (Raises (ValueError r), snd (confirm self))))
   \<and> (fst (cancel self) = Returns () \<longrightarrow>
      (\<exists>r. cancel (snd (cancel self)) = (Raises (ValueError r), snd (cancel self))))"
  by (auto simp: confirm_def cancel_def)

theorem order_status_machine_witness:
  "(\<exists>r. confirm \<lparr>order_id = Some 1, order_user_id = 1, order_status = ''pending'',
                  order_items = []\<rparr>
        = (Raises (ValueError r),
           \<lparr>order_id = Some 1, order_user_id = 1, order_status = ''pending'',
            order_items = []\<rparr>))
   \<and> confirm \<lparr>order_id = Some 1, order_user_id = 1, order_status = ''pending'',
               order_items = [\<lparr>item_product_id = Some 1, item_product_name = ''Widget'',
                               item_price = Num False 10, item_quantity = 2\<rparr>]\<rparr>
        = (Returns (),
           \<lparr>order_id = Some 1, order_user_id = 1, order_status = ''confirmed'',
            order_items = [\<lparr>item_product_id = Some 1, item_product_name = ''Widget'',
                            item_price = Num False 10, item_quantity = 2\<rparr>]\<rparr>)
   \<and> (\<exists>r. confirm \<lparr>order_id = Some 1, order_user_id = 1, order_status = ''confirmed'',
               order_items = [\<lparr>item_product_id = Some 1, item_product_name = ''Widget'',
                               item_price = Num False 10, item_quantity = 2\<rparr>]\<rparr>
        = (Raises (ValueError r),
           \<lparr>order_id = Some 1, order_user_id = 1, order_status = ''confirmed'',
            order_items = [\<lparr>item_product_id = Some 1, item_product_name = ''Widget'',
                            item_price = Num False 10, item_quantity = 2\<rparr>]\<rparr>))
   \<and> cancel \<lparr>order_id = Some 1, order_user_id = 1, order_status = ''confirmed'',
              order_items = [\<lparr>item_product_id = Some 1, item_product_name = ''Widget'',
                              item_price = Num False 10, item_quantity = 2\<rparr>]\<rparr>
        = (Returns (),
           \<lparr>order_id = Some 1, order_user_id = 1, order_status = ''cancelled'',
            order_items = [\<lparr>item_product_id = Some 1, item_product_name = ''Widget'',
                            item_price = Num False 10, item_quantity = 2\<rparr>]\<rparr>)
   \<and> (\<exists>r. cancel \<lparr>order_id = Some 1, order_user_id = 1, order_status = ''cancelled'',
              order_items = [\<lparr>item_product_id = Some 1, item_product_name = ''Widget'',
                              item_price = Num False 10, item_quantity = 2\<rparr>]\<rparr>
        = (Raises (ValueError r),
           \<lparr>order_id = Some 1, order_user_id = 1, order_status = ''cancelled'',
            order_items = [\<lparr>item_product_id = Some 1, item_product_name = ''Widget'',
                            item_price = Num False 10, item_quantity = 2\<rparr>]\<rparr>))"
proof -
  let ?it = "\<lparr>item_product_id = Some 1, item_product_name = ''Widget'',
              item_price = Num False 10, item_quantity = 2\<rparr>"
  let ?e = "\<lparr>order_id = Some 1, order_user_id = 1, order_status = ''pending'',
             order_items = []\<rparr>"
  let ?p = "\<lparr>order_id = Some 1, order_user_id = 1, order_status = ''pending'',
             order_items = [?it]\<rparr>"
  let ?c = "\<lparr>order_id = Some 1, order_user_id = 1, order_status = ''confirmed'',
             order_items = [?it]\<rparr>"
  let ?x = "\<lparr>order_id = Some 1, order_user_id = 1, order_status = ''cancelled'',
             order_items = [?it]\<rparr>"
  from order_status_machine [of ?e] order_status_machine [of ?p]
    order_status_machine [of ?c] order_status_machine [of ?x]
  show ?thesis by simp
qed

section \<open>Order: exact totals\<close>

lemma to_double_exact:
  assumes "representable x"
  shows "to_double s \<bar>x\<bar> = Num s \<bar>x\<bar>"
  using assms by (simp add: representable_def to_double_def Let_def)

lemma representable_small_int:
  assumes "\<bar>n\<bar> < 2 ^ 53"
  shows "representable (of_int n)"
proof (cases "n = 0")
  case True
  then show ?thesis by (simp add: representable_def)
next
  case False
  then have pos: "0 < \<bar>n\<bar>" by simp
  from small_int_grid [OF pos assms] have "round_magnitude (of_int \<bar>n\<bar>) = of_int \<bar>n\<bar>" .
  moreover have "(of_int \<bar>n\<bar> :: rat) < of_int (2 ^ 53)" using assms by (simp only: of_int_less_iff)
  then have "(of_int \<bar>n\<bar> :: rat) < 2 ^ 1024" by simp
  ultimately show ?thesis by (simp add: representable_def)
qed
















lemma to_double_small_int:
  assumes "0 \<le> n" and "n < 2 ^ 53"
  shows "to_double s (of_int n) = Num s (of_int n)"
proof -
  from assms have "\<bar>n\<bar> < 2 ^ 53" by simp
  from to_double_exact [OF representable_small_int [OF this], of s] assms(1)
  show ?thesis by simp
qed

lemma subtotal_small_int:
  assumes "item_price item = Num False (of_int a)" and "0 \<le> a"
    and "0 \<le> item_quantity item" and "item_quantity item < 2 ^ 53"
    and "a * item_quantity item < 2 ^ 53"
  shows "subtotal item = Returns (Num False (of_int (a * item_quantity item)))"
proof -
  define q where "q = item_quantity item"
  from assms(3,4) have "to_double False (of_int q) = Num False (of_int q)"
    unfolding q_def by (rule to_double_small_int)
  with assms(3) have c: "float_of_int q = Returns (Num False (of_int q))"
    by (simp add: float_of_int_def q_def)
  from assms(2,3) have "0 \<le> a * q" by (simp add: q_def)
  from this assms(5) [folded q_def]
  have "to_double False (of_int (a * q)) = Num False (of_int (a * q))"
    by (rule to_double_small_int)
  then have "float_mul (Num False (of_int a)) (Num False (of_int q))
               = Num False (of_int (a * q))" by simp
  with c show ?thesis
    by (simp add: subtotal_def float_mul_int_def assms(1) q_def [symmetric])
qed


section \<open>Order: adding an item\<close>

text \<open>
  C8. \<open>add_item\<close> leaves the product as it was, whether it returns or raises. When
  it returns, the order's items are the old items followed by one new item that holds
  the product's id, name and price and the requested quantity. If the product's price
  is changed afterwards, the order is the same as without the change: the prices and
  the subtotals of its items are those from before, and the new item has the price
  the product had when it was added.
\<close>

theorem add_item_frame_snapshot:
  "snd (snd (add_item self product quantity)) = product
   \<and> (fst (add_item self product quantity) = Returns () \<longrightarrow>
        order_items (fst (snd (add_item self product quantity))) =
          order_items self @
            [\<lparr>item_product_id = prod_id product, item_product_name = prod_name product,
              item_price = prod_price product, item_quantity = quantity\<rparr>])
   \<and> fst (add_then_reprice self product quantity new_price)
        = fst (snd (add_item self product quantity))
   \<and> (fst (add_item self product quantity) = Returns () \<longrightarrow>
        map item_price (order_items (fst (add_then_reprice self product quantity new_price)))
          = map item_price (order_items self) @ [prod_price product]
      \<and> map subtotal (order_items (fst (add_then_reprice self product quantity new_price)))
          = map subtotal (order_items self) @ [float_mul_int (prod_price product) quantity])"
  by (auto simp: add_item_def add_then_reprice_def Let_def subtotal_def
        split: option.splits prod.splits if_splits dest: add_item_loop_Some)

theorem add_item_frame_snapshot_witness:
  "add_item
     \<lparr>order_id = Some 1, order_user_id = 1, order_status = ''pending'', order_items = []\<rparr>
     \<lparr>prod_id = Some 1, prod_name = ''Widget'', prod_price = Num False 10, prod_quantity = 5\<rparr> 2
   = (Returns (),
      \<lparr>order_id = Some 1, order_user_id = 1, order_status = ''pending'',
       order_items = [\<lparr>item_product_id = Some 1, item_product_name = ''Widget'',
                       item_price = Num False 10, item_quantity = 2\<rparr>]\<rparr>,
      \<lparr>prod_id = Some 1, prod_name = ''Widget'', prod_price = Num False 10, prod_quantity = 5\<rparr>)
   \<and> add_then_reprice
       \<lparr>order_id = Some 1, order_user_id = 1, order_status = ''pending'', order_items = []\<rparr>
       \<lparr>prod_id = Some 1, prod_name = ''Widget'', prod_price = Num False 10, prod_quantity = 5\<rparr>
       2 (Num False 12)
     = (\<lparr>order_id = Some 1, order_user_id = 1, order_status = ''pending'',
         order_items = [\<lparr>item_product_id = Some 1, item_product_name = ''Widget'',
                         item_price = Num False 10, item_quantity = 2\<rparr>]\<rparr>,
        \<lparr>prod_id = Some 1, prod_name = ''Widget'', prod_price = Num False 12,
         prod_quantity = 5\<rparr>)
   \<and> map subtotal (order_items (fst (add_then_reprice
       \<lparr>order_id = Some 1, order_user_id = 1, order_status = ''pending'', order_items = []\<rparr>
       \<lparr>prod_id = Some 1, prod_name = ''Widget'', prod_price = Num False 10, prod_quantity = 5\<rparr>
       2 (Num False 12))))
     = [Returns (Num False 20)]"
proof -
  let ?o = "\<lparr>order_id = Some 1, order_user_id = 1, order_status = ''pending'',
             order_items = []\<rparr>"
  let ?p = "\<lparr>prod_id = Some 1, prod_name = ''Widget'', prod_price = Num False 10,
             prod_quantity = 5\<rparr>"
  let ?i = "\<lparr>item_product_id = Some 1, item_product_name = ''Widget'',
             item_price = Num False 10, item_quantity = 2\<rparr>"
  have run: "add_item ?o ?p 2 = (Returns (), ?o\<lparr>order_items := [?i]\<rparr>, ?p)"
    by (simp add: add_item_def is_in_stock_def)
  have d10: "is_double (Num False 10)" using small_int_is_double [of 10 False] by simp
  have d12: "is_double (Num False 12)" using small_int_is_double [of 12 False] by simp
  have "update_price ?p (Num False 12) = (Returns (), ?p\<lparr>prod_price := Num False 12\<rparr>)"
    by (rule update_price_exact_accept [OF _ d10 d12]) simp_all
  then have reprice: "snd (update_price ?p (Num False 12)) = ?p\<lparr>prod_price := Num False 12\<rparr>"
    by simp
  have "subtotal ?i = Returns (Num False 20)"
    using subtotal_small_int [of ?i 10] by simp
  then have sub: "float_mul_int (Num False 10) 2 = Returns (Num False 20)"
    by (simp add: subtotal_def)
  from add_item_frame_snapshot [of ?o ?p 2 "Num False 12"] run reprice sub
  show ?thesis by (simp add: add_then_reprice_def)
qed

text \<open>
  C10. \<open>add_item\<close> does not look at the status. For an order that is confirmed,
  cancelled or delivered, a product whose id no item of the order carries, and a
  quantity with \<open>0 < quantity \<le> product.quantity\<close>, the call returns and appends the
  new item; the same call on the same order with status pending appends the same item.
\<close>

theorem add_item_ignores_status:
  assumes "order_status self \<in> {''confirmed'', ''cancelled'', ''delivered''}"
    and "prod_id product \<notin> item_product_id ` set (order_items self)"
    and "0 < quantity" and "quantity \<le> prod_quantity product"
  shows "add_item self product quantity =
           (Returns (),
            self\<lparr>order_items := order_items self @
               [\<lparr>item_product_id = prod_id product, item_product_name = prod_name product,
                 item_price = prod_price product, item_quantity = quantity\<rparr>]\<rparr>,
            product)
       \<and> add_item (self\<lparr>order_status := ''pending''\<rparr>) product quantity =
           (Returns (),
            self\<lparr>order_status := ''pending'', order_items := order_items self @
               [\<lparr>item_product_id = prod_id product, item_product_name = prod_name product,
                 item_price = prod_price product, item_quantity = quantity\<rparr>]\<rparr>,
            product)"
proof -
  from assms(2) have "add_item_loop (order_items self) (prod_id product) quantity = None"
    by (simp add: add_item_loop_None)
  with assms(3,4) show ?thesis
    by (simp add: add_item_def is_in_stock_def Let_def)
qed

theorem add_item_ignores_status_witness:
  "add_item
     \<lparr>order_id = Some 1, order_user_id = 1, order_status = ''delivered'',
      order_items = [\<lparr>item_product_id = Some 1, item_product_name = ''Widget'',
                      item_price = Num False 10, item_quantity = 2\<rparr>]\<rparr>
     \<lparr>prod_id = Some 2, prod_name = ''Gadget'', prod_price = Num False 4, prod_quantity = 3\<rparr> 3
   = (Returns (),
      \<lparr>order_id = Some 1, order_user_id = 1, order_status = ''delivered'',
       order_items = [\<lparr>item_product_id = Some 1, item_product_name = ''Widget'',
                       item_price = Num False 10, item_quantity = 2\<rparr>,
                      \<lparr>item_product_id = Some 2, item_product_name = ''Gadget'',
                       item_price = Num False 4, item_quantity = 3\<rparr>]\<rparr>,
      \<lparr>prod_id = Some 2, prod_name = ''Gadget'', prod_price = Num False 4, prod_quantity = 3\<rparr>)"
proof -
  let ?o = "\<lparr>order_id = Some 1, order_user_id = 1, order_status = ''delivered'',
      order_items = [\<lparr>item_product_id = Some 1, item_product_name = ''Widget'',
                      item_price = Num False 10, item_quantity = 2\<rparr>]\<rparr>"
  let ?p = "\<lparr>prod_id = Some 2, prod_name = ''Gadget'', prod_price = Num False 4,
             prod_quantity = 3\<rparr>"
  have st: "order_status ?o \<in> {''confirmed'', ''cancelled'', ''delivered''}" by simp
  have new: "prod_id ?p \<notin> item_product_id ` set (order_items ?o)" by simp
  have lo: "0 < (3::int)" by simp
  have hi: "(3::int) \<le> prod_quantity ?p" by simp
  from add_item_ignores_status [OF st new lo hi] show ?thesis by simp
qed

section \<open>Order: totals\<close>






end
